theory Spec2Isabelle
  imports Complex_Main "HOL-Library.Sublist"
begin

section \<open>Python values used by chromaTest.py\<close>

text \<open>
  A Python \<open>str\<close> is a sequence of Unicode code points; it is modelled as a list of
  natural numbers, so that the Turkish letters of the stop words and of the fixed
  messages are single characters, as they are in Python.
\<close>

type_synonym str = "nat list"

definition ascii :: "string \<Rightarrow> str" where
  "ascii s = map of_char s"

text \<open>
  \<open>str.isspace\<close> for one code point: the characters that \<open>str.strip()\<close> and
  \<open>str.split()\<close> treat as whitespace.
\<close>

definition isspace :: "nat \<Rightarrow> bool" where
  "isspace c =
     ((9 \<le> c \<and> c \<le> 13) \<or> (28 \<le> c \<and> c \<le> 32) \<or> c = 133 \<or> c = 160 \<or> c = 5760 \<or>
      (8192 \<le> c \<and> c \<le> 8202) \<or> c = 8232 \<or> c = 8233 \<or> c = 8239 \<or> c = 8287 \<or>
      c = 12288)"

definition lstrip :: "str \<Rightarrow> str" where
  "lstrip s = dropWhile isspace s"

definition rstrip :: "str \<Rightarrow> str" where
  "rstrip s = rev (dropWhile isspace (rev s))"

definition strip :: "str \<Rightarrow> str" where
  "strip s = rstrip (lstrip s)"

text \<open>\<open>sep.join(xs)\<close>.\<close>

fun join :: "str \<Rightarrow> str list \<Rightarrow> str" where
  "join sep [] = []"
| "join sep [x] = x"
| "join sep (x # y # ys) = x @ sep @ join sep (y # ys)"

text \<open>
  \<open>text.split(sep)\<close> for a non-empty separator: the text is scanned from the left, each
  occurrence of the separator closes the current fragment and the scan resumes behind it.
  (Python raises ValueError for an empty separator; the program only splits on a
  two-character one, and the model then never matches.)
\<close>

function split_sep :: "str \<Rightarrow> str \<Rightarrow> str list" where
  "split_sep sep [] = [[]]"
| "split_sep sep (c # cs) =
     (if sep \<noteq> [] \<and> prefix sep (c # cs)
      then [] # split_sep sep (drop (length sep) (c # cs))
      else (case split_sep sep cs of
              [] \<Rightarrow> [[c]]
            | f # fs \<Rightarrow> (c # f) # fs))"
  by pat_completeness auto
termination
  by (relation "measure (\<lambda>(sep, s). length s)") (auto simp: Suc_le_eq)

text \<open>
  \<open>text.split()\<close> without a separator: runs of whitespace separate the words, and no
  empty word is produced. \<open>cur\<close> is the word being read.
\<close>

fun split_words :: "str \<Rightarrow> str \<Rightarrow> str list" where
  "split_words cur [] = (if cur = [] then [] else [cur])"
| "split_words cur (c # cs) =
     (if isspace c
      then (if cur = [] then split_words [] cs else cur # split_words [] cs)
      else split_words (cur @ [c]) cs)"

definition split_whitespace :: "str \<Rightarrow> str list" where
  "split_whitespace s = split_words [] s"

text \<open>
  A Python float as far as comparison sees it: a finite value, an infinity, or NaN.
  Every comparison with NaN is false.
\<close>

datatype pyfloat = Float real | PosInf | NegInf | NaN

fun float_le :: "pyfloat \<Rightarrow> pyfloat \<Rightarrow> bool" where
  "float_le NaN y = False"
| "float_le x NaN = False"
| "float_le NegInf y = True"
| "float_le x PosInf = True"
| "float_le (Float a) (Float b) = (a \<le> b)"
| "float_le x y = False"

fun float_gt :: "pyfloat \<Rightarrow> pyfloat \<Rightarrow> bool" where
  "float_gt NaN y = False"
| "float_gt x NaN = False"
| "float_gt x y = (\<not> float_le x y)"

section \<open>Config\<close>

text \<open>
  The class \<open>Config\<close> holds the constants the code reads; the functions below take it
  as an argument, and \<open>Config\<close> is the value the source assigns.
\<close>

record config =
  LLM_MODEL :: str
  OLLAMA_API_URL :: str
  OLLAMA_TIMEOUT :: nat
  RELEVANCE_THRESHOLD :: pyfloat
  STOPWORDS :: "str set"

definition Config :: config where
  "Config =
     \<lparr> LLM_MODEL = ascii ''gemma3:1b'',
       OLLAMA_API_URL = ascii ''http://localhost:11434/api/generate'',
       OLLAMA_TIMEOUT = 30,
       RELEVANCE_THRESHOLD = Float (1 / 2),
       STOPWORDS =
         set [ascii ''nedir'', ascii ''nas'' @ [305] @ ascii ''l'', ascii ''ne'',
              ascii ''i'' @ [231] @ ascii ''in'', ascii ''ile'', ascii ''ve'', ascii ''bir'',
              ascii ''bu'', [351] @ ascii ''u'', ascii ''zaman''] \<rparr>"

section \<open>TextProcessor\<close>

text \<open>
  \<open>str.lower\<close> is Python's Unicode lower-casing; the functions that call it take it as
  the argument \<open>lower\<close>. \<open>ascii_lower\<close> is what it does on text whose only cased
  characters are the ASCII letters.
\<close>

definition ascii_lower :: "str \<Rightarrow> str" where
  "ascii_lower s = map (\<lambda>c. if 65 \<le> c \<and> c \<le> 90 then c + 32 else c) s"

definition split_into_sentences :: "str \<Rightarrow> str list" where
  "split_into_sentences text =
     (if text = [] then []
      else map strip (filter (\<lambda>s. strip s \<noteq> []) (split_sep (ascii ''. '') text)))"

definition extract_keywords :: "(str \<Rightarrow> str) \<Rightarrow> config \<Rightarrow> str \<Rightarrow> str list" where
  "extract_keywords lower cfg query =
     filter (\<lambda>word. word \<notin> STOPWORDS cfg) (split_whitespace (lower query))"

definition is_sentence_relevant :: "(str \<Rightarrow> str) \<Rightarrow> str \<Rightarrow> str list \<Rightarrow> bool" where
  "is_sentence_relevant lower sentence query_keywords =
     list_ex (\<lambda>keyword. sublist keyword (lower sentence)) query_keywords"

section \<open>RAGSystem.process_query: the relevance filter\<close>

text \<open>
  The loop of lines 202 to 206: \<open>zip\<close> stops at the shorter list, and a sentence is
  appended to \<open>relevant_sentences\<close> when it is relevant and its distance is at most the
  threshold.
\<close>

fun filter_loop ::
  "(str \<Rightarrow> str) \<Rightarrow> config \<Rightarrow> str list \<Rightarrow> str list \<Rightarrow> (str \<times> pyfloat) list \<Rightarrow> str list" where
  "filter_loop lower cfg query_keywords relevant_sentences [] = relevant_sentences"
| "filter_loop lower cfg query_keywords relevant_sentences ((sentence, distance) # rest) =
     (if is_sentence_relevant lower sentence query_keywords \<and>
         float_le distance (RELEVANCE_THRESHOLD cfg)
      then filter_loop lower cfg query_keywords (relevant_sentences @ [sentence]) rest
      else filter_loop lower cfg query_keywords relevant_sentences rest)"

definition relevant_sentences ::
  "(str \<Rightarrow> str) \<Rightarrow> config \<Rightarrow> str list \<Rightarrow> str list \<Rightarrow> pyfloat list \<Rightarrow> str list" where
  "relevant_sentences lower cfg query_keywords selected_sentences distances =
     filter_loop lower cfg query_keywords [] (zip selected_sentences distances)"

section \<open>Exceptions and HTTP\<close>

text \<open>
  The exceptions that can reach the handlers of the program. In \<open>requests\<close>,
  \<open>ConnectTimeout\<close> is a subclass of \<open>ConnectionError\<close> (and of \<open>Timeout\<close>), while
  \<open>ReadTimeout\<close> is a subclass of \<open>Timeout\<close> only; \<open>HTTPError\<close> is what
  \<open>raise_for_status\<close> raises, \<open>JSONDecodeError\<close> what \<open>response.json()\<close> raises on a
  body that is not JSON, and \<open>AttributeError\<close> what a method call on a value without that
  method raises. All of them are subclasses of \<open>Exception\<close>.
\<close>

datatype exn =
  ConnectionError | ConnectTimeout | ReadTimeout | HTTPError | JSONDecodeError |
  AttributeError | OtherException

fun is_ConnectionError :: "exn \<Rightarrow> bool" where
  "is_ConnectionError ConnectionError = True"
| "is_ConnectionError ConnectTimeout = True"
| "is_ConnectionError e = False"

text \<open>\<open>response.raise_for_status()\<close> raises for the status codes 400 to 599.\<close>

definition raise_for_status :: "nat \<Rightarrow> exn + unit" where
  "raise_for_status status_code =
     (if 400 \<le> status_code \<and> status_code < 600 then Inl HTTPError else Inr ())"

section \<open>ContentFetcher\<close>

text \<open>
  The answer to a GET: its status code and the texts of the \<open>p\<close> elements that
  BeautifulSoup finds in its body. \<open>get\<close> is the network: for each URL it raises or
  answers.
\<close>

record get_response =
  get_status_code :: nat
  paragraphs :: "str list"

definition fetch_from_url :: "(str \<Rightarrow> exn + get_response) \<Rightarrow> str \<Rightarrow> str option" where
  "fetch_from_url get url =
     (case get url of
        Inl e \<Rightarrow> None
      | Inr response \<Rightarrow>
          (case raise_for_status (get_status_code response) of
             Inl e \<Rightarrow> None
           | Inr u \<Rightarrow>
               (let content = join (ascii '' '') (paragraphs response)
                in if strip content = [] then None else Some content)))"

section \<open>LLMService\<close>

definition NOT_FOUND :: str where
  "NOT_FOUND = ascii ''Bunu bulamad'' @ [305] @ ascii ''m.''"

definition CONNECTION_FAILED :: str where
  "CONNECTION_FAILED =
     ascii ''Ollama sunucusuna ba'' @ [287] @ ascii ''lan'' @ [305] @ ascii ''lamad'' @ [305] @
     ascii ''. L'' @ [252] @ ascii ''tfen '' @ [39] @ ascii ''ollama serve'' @ [39] @
     ascii '' komutunu '' @ [231] @ ascii ''al'' @ [305, 351] @ ascii ''t'' @ [305] @
     ascii ''rarak sunucuyu ba'' @ [351] @ ascii ''lat'' @ [305] @ ascii ''n.''"

definition GENERATION_FAILED :: str where
  "GENERATION_FAILED =
     ascii ''Yan'' @ [305] @ ascii ''t '' @ [252] @ ascii ''retilirken bir hata olu'' @ [351] @
     ascii ''tu.''"

text \<open>
  The decoded JSON body of the answer to the POST: an object (a dict) or something else;
  a value in the object is a string or something else. Only a dict has \<open>get\<close> and only a
  string has \<open>strip\<close>.
\<close>

datatype json_value = JString str | JNotString

datatype json_body = JObject "str \<Rightarrow> json_value option" | JNotObject

record post_request =
  url :: str
  json_model :: str
  json_prompt :: str
  json_stream :: bool
  timeout :: nat

record post_response =
  post_status_code :: nat
  json :: "json_body option"

definition make_prompt :: "str \<Rightarrow> str \<Rightarrow> str" where
  "make_prompt question context =
     ascii ''Soru: '' @ question @ [10] @ ascii ''Ba'' @ [287] @ ascii ''lam: '' @ context @
     [10] @ ascii ''Yan'' @ [305] @ ascii ''t:''"

text \<open>
  The body of the \<open>try\<close> statement of \<open>generate_answer\<close>: \<open>json\<close> of the response is None
  when the body is not JSON.
\<close>

definition try_generate :: "(post_request \<Rightarrow> exn + post_response) \<Rightarrow> post_request \<Rightarrow> exn + str" where
  "try_generate post request =
     (case post request of
        Inl e \<Rightarrow> Inl e
      | Inr response \<Rightarrow>
          (case raise_for_status (post_status_code response) of
             Inl e \<Rightarrow> Inl e
           | Inr u \<Rightarrow>
               (case json response of
                  None \<Rightarrow> Inl JSONDecodeError
                | Some JNotObject \<Rightarrow> Inl AttributeError
                | Some (JObject result) \<Rightarrow>
                    (case (case result (ascii ''response'') of
                             None \<Rightarrow> JString NOT_FOUND
                           | Some v \<Rightarrow> v) of
                       JString answer \<Rightarrow> Inr (strip answer)
                     | JNotString \<Rightarrow> Inl AttributeError))))"

text \<open>
  \<open>generate_answer\<close> returns the answer; the model returns with it the list of the POST
  requests that were sent.
\<close>

definition generate_answer ::
  "config \<Rightarrow> (post_request \<Rightarrow> exn + post_response) \<Rightarrow> str \<Rightarrow> str list \<Rightarrow>
   str \<times> post_request list" where
  "generate_answer cfg post question context_sentences =
     (if context_sentences = [] then (NOT_FOUND, [])
      else
        (let context = join (ascii '' '') context_sentences;
             prompt = make_prompt question context;
             request = \<lparr> url = OLLAMA_API_URL cfg, json_model = LLM_MODEL cfg,
                         json_prompt = prompt, json_stream = False,
                         timeout = OLLAMA_TIMEOUT cfg \<rparr>
         in (case try_generate post request of
               Inr answer \<Rightarrow> (answer, [request])
             | Inl e \<Rightarrow>
                 (if is_ConnectionError e then (CONNECTION_FAILED, [request])
                  else (GENERATION_FAILED, [request])))))"

section \<open>RAGSystem\<close>

fun load_loop :: "(str \<Rightarrow> exn + get_response) \<Rightarrow> str list \<Rightarrow> str list \<Rightarrow> str list" where
  "load_loop get all_sentences [] = all_sentences"
| "load_loop get all_sentences (link # links) =
     (case fetch_from_url get link of
        None \<Rightarrow> load_loop get all_sentences links
      | Some content \<Rightarrow>
          (if content \<noteq> []
           then load_loop get (all_sentences @ split_into_sentences content) links
           else load_loop get all_sentences links))"

definition load_content_from_links :: "(str \<Rightarrow> exn + get_response) \<Rightarrow> str list \<Rightarrow> str list" where
  "load_content_from_links get links = load_loop get [] links"

text \<open>
  What \<open>query_similar\<close> returns: the collection stores each sentence under the key
  \<open>text\<close> of its metadata (\<open>add_sentences\<close>), so a metadata is a record with that field;
  either entry of the result may be None.
\<close>

record metadata =
  text_of :: str

record query_results =
  distances :: "pyfloat list list option"
  metadatas :: "metadata list list option"

definition first_or_empty :: "'a list list option \<Rightarrow> 'a list" where
  "first_or_empty r = (case r of None \<Rightarrow> [] | Some [] \<Rightarrow> [] | Some (x # xs) \<Rightarrow> x)"

definition not_found_test :: "config \<Rightarrow> str list \<Rightarrow> pyfloat list \<Rightarrow> bool" where
  "not_found_test cfg relevant ds =
     (relevant = [] \<or>
      (case ds of [] \<Rightarrow> False | d0 # rest \<Rightarrow> float_gt d0 (RELEVANCE_THRESHOLD cfg)))"

definition process_query ::
  "(str \<Rightarrow> str) \<Rightarrow> config \<Rightarrow> (str \<Rightarrow> query_results) \<Rightarrow>
   (post_request \<Rightarrow> exn + post_response) \<Rightarrow> str \<Rightarrow> str \<times> post_request list" where
  "process_query lower cfg query_similar post query =
     (let results = query_similar query;
          ds = first_or_empty (distances results);
          selected_sentences = map text_of (first_or_empty (metadatas results));
          query_keywords = extract_keywords lower cfg query;
          relevant = relevant_sentences lower cfg query_keywords selected_sentences ds
      in if not_found_test cfg relevant ds then (NOT_FOUND, [])
         else generate_answer cfg post query relevant)"

section \<open>main: the query loop\<close>

definition EXIT_TOKEN :: str where
  "EXIT_TOKEN = [231, 305, 107]"

definition EXIT_MESSAGE :: str where
  "EXIT_MESSAGE = ascii ''Programdan '' @ [231, 305, 107, 305, 108, 305, 121, 111, 114] @ ascii ''...''"

definition ANSWER_HEADER :: str where
  "ANSWER_HEADER = [10] @ ascii ''Yan'' @ [305] @ ascii ''t:''"

text \<open>
  The loop over the lines the user types; the result is what the loop prints. It ends at
  the exit token, or when there is no more input.
\<close>

fun query_loop ::
  "(str \<Rightarrow> str) \<Rightarrow> config \<Rightarrow> (str \<Rightarrow> query_results) \<Rightarrow>
   (post_request \<Rightarrow> exn + post_response) \<Rightarrow> str list \<Rightarrow> str list" where
  "query_loop lower cfg query_similar post [] = []"
| "query_loop lower cfg query_similar post (user_query # inputs) =
     (if lower user_query = EXIT_TOKEN then [EXIT_MESSAGE]
      else ANSWER_HEADER # fst (process_query lower cfg query_similar post user_query) #
           query_loop lower cfg query_similar post inputs)"

section \<open>Example environments\<close>

text \<open>
  Networks and query results used in the examples below. \<open>ELMA\<close> and \<open>ARABA\<close> are the
  two sentences of the gate examples of the specification; the letter 305 is the
  dotless i.
\<close>

definition ELMA :: str where
  "ELMA = ascii ''elma k'' @ [305] @ ascii ''rm'' @ [305] @ ascii ''z'' @ [305] @ ascii ''d'' @
          [305] @ ascii ''r''"

definition ARABA :: str where
  "ARABA = ascii ''araba h'' @ [305] @ ascii ''zl'' @ [305] @ ascii ''d'' @ [305] @ ascii ''r''"

definition results_of :: "str list \<Rightarrow> pyfloat list \<Rightarrow> query_results" where
  "results_of sentences ds =
     \<lparr> distances = Some [ds],
       metadatas = Some [map (\<lambda>s. \<lparr> text_of = s \<rparr>) sentences] \<rparr>"

definition near_elma :: "str \<Rightarrow> query_results" where
  "near_elma query = results_of [ELMA, ARABA] [Float (2 / 10), Float (9 / 10)]"

definition far_first :: "str \<Rightarrow> query_results" where
  "far_first query = results_of [ARABA, ELMA] [Float (9 / 10), Float (2 / 10)]"

definition post_read_timeout :: "post_request \<Rightarrow> exn + post_response" where
  "post_read_timeout request = Inl ReadTimeout"

definition post_other_failure :: "post_request \<Rightarrow> exn + post_response" where
  "post_other_failure request = Inl OtherException"

definition post_connection_error :: "post_request \<Rightarrow> exn + post_response" where
  "post_connection_error request = Inl ConnectionError"

definition response_object :: "json_value \<Rightarrow> str \<Rightarrow> json_value option" where
  "response_object v key = (if key = ascii ''response'' then Some v else None)"

definition empty_object :: "str \<Rightarrow> json_value option" where
  "empty_object key = None"

definition post_answers :: "str \<Rightarrow> post_request \<Rightarrow> exn + post_response" where
  "post_answers answer request =
     Inr \<lparr> post_status_code = 200, json = Some (JObject (response_object (JString answer))) \<rparr>"

definition post_no_response_field :: "post_request \<Rightarrow> exn + post_response" where
  "post_no_response_field request =
     Inr \<lparr> post_status_code = 200, json = Some (JObject empty_object) \<rparr>"

definition get_pages :: "str \<Rightarrow> exn + get_response" where
  "get_pages link =
     (if link = ascii ''http://a'' then
        Inr \<lparr> get_status_code = 200, paragraphs = [ascii ''Bir. Iki.'', ascii ''Uc''] \<rparr>
      else if link = ascii ''http://b'' then
        Inr \<lparr> get_status_code = 404, paragraphs = [ascii ''Yok''] \<rparr>
      else if link = ascii ''http://c'' then
        Inr \<lparr> get_status_code = 300, paragraphs = [ascii ''Dort''] \<rparr>
      else Inl ConnectionError)"

section \<open>Splitting text\<close>

lemma dot_space: "ascii ''. '' = [46, 32]"
  by (simp add: ascii_def)

lemma split_sep_not_Nil: "split_sep sep s \<noteq> []"
  by (induction sep s rule: split_sep.induct) (auto split: list.splits)

lemma join_Cons_Cons: "join sep ((c # f) # fs) = c # join sep (f # fs)"
  by (cases fs) simp_all

lemma join_Nil_Cons: "fs \<noteq> [] \<Longrightarrow> join sep ([] # fs) = sep @ join sep fs"
  by (cases fs) simp_all

lemma join_split_sep: "join sep (split_sep sep s) = s"
proof (induction sep s rule: split_sep.induct)
  case (1 sep)
  show ?case by simp
next
  case (2 sep c cs)
  show ?case
  proof (cases "sep \<noteq> [] \<and> prefix sep (c # cs)")
    case True
    then obtain zs where zs: "c # cs = sep @ zs"
      by (auto simp: prefix_def)
    have unfold: "split_sep sep (c # cs) = [] # split_sep sep (drop (length sep) (c # cs))"
      using True by simp
    have rest: "drop (length sep) (c # cs) = zs"
      using zs by simp
    have "join sep (split_sep sep (drop (length sep) (c # cs))) = drop (length sep) (c # cs)"
      using True 2 by simp
    then have "join sep (split_sep sep (c # cs)) = sep @ zs"
      unfolding unfold rest by (simp add: join_Nil_Cons split_sep_not_Nil)
    then show ?thesis using zs by simp
  next
    case False
    obtain f fs where f: "split_sep sep cs = f # fs"
      using split_sep_not_Nil [of sep cs] by (cases "split_sep sep cs") auto
    have unfold: "split_sep sep (c # cs) = (c # f) # fs"
      using False f by auto
    have "join sep (split_sep sep cs) = cs"
      using False 2 by blast
    then show ?thesis
      unfolding unfold join_Cons_Cons using f by simp
  qed
qed

lemma hd_split_sep_prefix: "prefix (hd (split_sep sep s)) s"
  by (induction sep s rule: split_sep.induct) (auto split: list.splits)

lemma split_sep_no_marker:
  "sep \<noteq> [] \<Longrightarrow> list_all (\<lambda>f. \<not> sublist sep f) (split_sep sep s)"
proof (induction sep s rule: split_sep.induct)
  case (1 sep)
  then show ?case by simp
next
  case (2 sep c cs)
  show ?case
  proof (cases "prefix sep (c # cs)")
    case True
    with 2 show ?thesis by simp
  next
    case False
    obtain f fs where f: "split_sep sep cs = f # fs"
      using split_sep_not_Nil [of sep cs] by (cases "split_sep sep cs") auto
    have "prefix f cs"
      using hd_split_sep_prefix [of sep cs] f by simp
    then have "\<not> prefix sep (c # f)"
      using False by (meson Cons_prefix_Cons prefix_order.trans)
    with False 2 f show ?thesis
      by (simp add: sublist_Cons_right)
  qed
qed

lemma split_sep_single: "\<not> sublist sep b \<Longrightarrow> split_sep sep b = [b]"
  by (induction b) (auto simp: sublist_Cons_right)

lemma split_sep_append:
  "split_sep [46, 32] (a @ [46, 32] @ b) = split_sep [46, 32] a @ split_sep [46, 32] b"
proof (induction "[46, 32] :: nat list" a rule: split_sep.induct)
  case 1
  show ?case by simp
next
  case (2 c cs)
  show ?case
  proof (cases "prefix [46, 32] (c # cs)")
    case True
    then obtain cs' where "c = 46" "cs = 32 # cs'"
      by (cases cs) auto
    with 2 show ?thesis by simp
  next
    case False
    then have np: "\<not> prefix [46, 32] (c # cs @ [46, 32] @ b)"
      by (cases cs) auto
    obtain f fs where f: "split_sep [46, 32] cs = f # fs"
      using split_sep_not_Nil [of "[46, 32]" cs] by (cases "split_sep [46, 32] cs") auto
    from False np 2 f show ?thesis by simp
  qed
qed


lemma rstrip_keeps_lstrip:
  assumes "dropWhile P t = t"
  shows "dropWhile P (rev (dropWhile P (rev t))) = rev (dropWhile P (rev t))"
proof (cases t)
  case Nil
  then show ?thesis by simp
next
  case (Cons x xs)
  with assms have nP: "\<not> P x"
    by (metis hd_dropWhile list.sel(1) list.distinct(1))
  have "\<exists>ys. dropWhile P (rev t) = ys @ [x]"
    using Cons nP by (simp add: dropWhile_append)
  then obtain ys where "dropWhile P (rev t) = ys @ [x]" ..
  with nP show ?thesis by simp
qed

lemma strip_idem: "strip (strip s) = strip s"
proof -
  have l: "lstrip (strip s) = strip s"
    unfolding strip_def lstrip_def rstrip_def
    by (rule rstrip_keeps_lstrip) simp
  have "rstrip (strip s) = strip s"
    unfolding strip_def rstrip_def by simp
  with l show ?thesis
    by (simp add: strip_def [of "strip s"])
qed

lemma strip_Nil: "strip [] = []"
  by (simp add: strip_def lstrip_def rstrip_def)

lemma split_into_sentences_eq:
  "split_into_sentences t = filter (\<lambda>s. s \<noteq> []) (map strip (split_sep (ascii ''. '') t))"
  by (simp add: split_into_sentences_def filter_map comp_def strip_Nil)

lemma split_into_sentences_stripped:
  "list_all (\<lambda>s. s \<noteq> [] \<and> strip s = s) (split_into_sentences t)"
  by (auto simp: split_into_sentences_eq list_all_iff strip_idem)

lemma split_into_sentences_single:
  assumes "\<not> sublist (ascii ''. '') b" and "strip b \<noteq> []"
  shows "split_into_sentences b = [strip b]"
  using assms by (simp add: split_into_sentences_eq split_sep_single)

lemma split_into_sentences_append:
  assumes "\<not> sublist (ascii ''. '') b" and "strip b \<noteq> []"
  shows "split_into_sentences (a @ ascii ''. '' @ b) = split_into_sentences a @ [strip b]"
proof -
  have "split_sep (ascii ''. '') (a @ ascii ''. '' @ b) =
        split_sep (ascii ''. '') a @ split_sep (ascii ''. '') b"
    unfolding dot_space by (rule split_sep_append)
  then show ?thesis
    using assms by (simp add: split_into_sentences_eq split_sep_single)
qed

text \<open>
  Claim C6. \<open>split_into_sentences\<close> cuts the text at every period-space marker (the
  fragments joined by the marker give the text back, and no fragment holds a marker),
  strips each fragment, drops the fragments that are empty after stripping and keeps the
  others in their order; every sentence returned is non-empty and stripped; the empty text
  gives no sentence; a final fragment \<open>b\<close> without a marker behind it is returned, stripped,
  as the last sentence. The function is total: no input makes it fail.
\<close>

theorem split_into_sentences_spec:
  "split_into_sentences t = filter (\<lambda>s. s \<noteq> []) (map strip (split_sep (ascii ''. '') t))
   \<and> join (ascii ''. '') (split_sep (ascii ''. '') t) = t
   \<and> list_all (\<lambda>f. \<not> sublist (ascii ''. '') f) (split_sep (ascii ''. '') t)
   \<and> list_all (\<lambda>s. s \<noteq> [] \<and> strip s = s) (split_into_sentences t)
   \<and> split_into_sentences [] = []
   \<and> (\<not> sublist (ascii ''. '') b \<and> strip b \<noteq> [] \<longrightarrow>
        split_into_sentences b = [strip b] \<and>
        split_into_sentences (a @ ascii ''. '' @ b) = split_into_sentences a @ [strip b])"
proof -
  have "list_all (\<lambda>f. \<not> sublist (ascii ''. '') f) (split_sep (ascii ''. '') t)"
    by (rule split_sep_no_marker) (simp add: dot_space)
  moreover have "split_into_sentences [] = []"
    by (simp add: split_into_sentences_def)
  ultimately show ?thesis
    using split_into_sentences_eq [of t] join_split_sep [of "ascii ''. ''" t]
      split_into_sentences_stripped [of t] split_into_sentences_single [of b]
      split_into_sentences_append [of b a]
    by blast
qed

theorem split_into_sentences_spec_witness:
  "\<not> sublist (ascii ''. '') (ascii '' Iki'') \<and> strip (ascii '' Iki'') \<noteq> [] \<and>
   split_into_sentences (ascii ''Bir.  . '' @ ascii ''. '' @ ascii '' Iki'') = [ascii ''Bir'', ascii ''Iki'']"
proof -
  have h: "\<not> sublist (ascii ''. '') (ascii '' Iki'') \<and> strip (ascii '' Iki'') \<noteq> []"
    by (simp add: ascii_def sublist_Cons_right strip_def lstrip_def rstrip_def isspace_def)
  have "split_into_sentences (ascii ''Bir.  . '') = [ascii ''Bir'']"
    by (simp add: split_into_sentences_def ascii_def strip_def lstrip_def rstrip_def isspace_def)
  moreover have "strip (ascii '' Iki'') = ascii ''Iki''"
    by (simp add: ascii_def strip_def lstrip_def rstrip_def isspace_def)
  ultimately show ?thesis
    using h split_into_sentences_spec [of "ascii ''Bir.  . ''" "ascii '' Iki''" "ascii ''Bir.  . ''"]
    by simp
qed

lemma split_sep_join:
  "ss \<noteq> [] \<Longrightarrow> list_all (\<lambda>s. \<not> sublist [46, 32] s) ss \<Longrightarrow>
   split_sep [46, 32] (join [46, 32] ss) = ss"
proof (induction "[46, 32] :: nat list" ss rule: join.induct)
  case 1
  then show ?case by simp
next
  case (2 x)
  then show ?case by (simp add: split_sep_single)
next
  case (3 x y ys)
  then have "split_sep [46, 32] (join [46, 32] (y # ys)) = y # ys"
    by simp
  moreover have "split_sep [46, 32] x = [x]"
    using 3 by (simp add: split_sep_single)
  ultimately show ?case
    using split_sep_append [of x "join [46, 32] (y # ys)"] by simp
qed

text \<open>
  Claim C7, as stated, fails: two sentences written one per line come back as one
  sentence that still holds the line break, since only the period-space marker is a
  boundary.
\<close>

theorem newline_is_no_boundary:
  "split_into_sentences (join [10] [ascii ''a'', ascii ''b'']) \<noteq> [ascii ''a'', ascii ''b'']"
  by (simp add: split_into_sentences_def ascii_def strip_def lstrip_def rstrip_def isspace_def)

lemma sublist_strip: "sublist (strip s) s"
proof -
  have "sublist (rev (dropWhile isspace (rev (lstrip s)))) (lstrip s)"
    by (simp add: sublist_rev_left)
  moreover have "sublist (lstrip s) s"
    by (simp add: lstrip_def)
  ultimately show ?thesis
    unfolding strip_def rstrip_def by (rule sublist_order.order_trans)
qed

lemma split_into_sentences_no_marker:
  "list_all (\<lambda>s. s \<noteq> [] \<and> strip s = s \<and> \<not> sublist (ascii ''. '') s)
     (split_into_sentences t)"
proof -
  have "\<not> sublist (ascii ''. '') (strip f)" if "f \<in> set (split_sep (ascii ''. '') t)" for f
  proof -
    have "\<not> sublist (ascii ''. '') f"
      using that split_sep_no_marker [of "ascii ''. ''" t]
      by (simp add: dot_space list_all_iff)
    then show ?thesis
      using sublist_strip [of f] sublist_order.order_trans by blast
  qed
  then show ?thesis
    by (auto simp: split_into_sentences_eq list_all_iff strip_idem)
qed

lemma split_into_sentences_each:
  "list_all (\<lambda>s. s \<noteq> [] \<and> strip s = s \<and> \<not> sublist (ascii ''. '') s) ss \<Longrightarrow>
   map split_into_sentences ss = map (\<lambda>s. [s]) ss"
  by (induction ss) (simp_all add: split_into_sentences_single)

lemma split_into_sentences_join:
  assumes "list_all (\<lambda>s. s \<noteq> [] \<and> strip s = s \<and> \<not> sublist (ascii ''. '') s) ss"
  shows "split_into_sentences (join (ascii ''. '') ss) = ss"
proof (cases ss)
  case Nil
  then show ?thesis by (simp add: split_into_sentences_def)
next
  case (Cons x xs)
  have "list_all (\<lambda>s. \<not> sublist [46, 32] s) ss"
    using assms by (simp add: list_all_iff dot_space)
  then have "split_sep [46, 32] (join [46, 32] ss) = ss"
    using Cons by (simp add: split_sep_join)
  moreover have "filter (\<lambda>s. s \<noteq> []) (map strip ss) = ss"
    using assms by (induction ss) simp_all
  ultimately show ?thesis
    by (simp add: split_into_sentences_eq dot_space)
qed

lemma dropWhile_id: "dropWhile P xs = xs \<longleftrightarrow> xs = [] \<or> \<not> P (hd xs)"
proof (cases xs)
  case Nil
  then show ?thesis by simp
next
  case (Cons a list)
  have "dropWhile P list \<noteq> a # list"
    using length_dropWhile_le [of P list] by auto
  with Cons show ?thesis by simp
qed

lemma dropWhile_same_length: "length (dropWhile P xs) = length xs \<Longrightarrow> dropWhile P xs = xs"
proof (cases xs)
  case Nil
  then show ?thesis by simp
next
  case (Cons a list)
  assume "length (dropWhile P xs) = length xs"
  then have "\<not> P a"
    using Cons length_dropWhile_le [of P list] by (auto split: if_splits)
  with Cons show ?thesis by simp
qed

lemma lstrip_id: "lstrip s = s \<longleftrightarrow> s = [] \<or> \<not> isspace (hd s)"
  unfolding lstrip_def by (rule dropWhile_id)

lemma rstrip_id: "rstrip s = s \<longleftrightarrow> s = [] \<or> \<not> isspace (last s)"
proof -
  have "rstrip s = s \<longleftrightarrow> dropWhile isspace (rev s) = rev s"
    unfolding rstrip_def by (metis rev_rev_ident)
  also have "\<dots> \<longleftrightarrow> rev s = [] \<or> \<not> isspace (hd (rev s))"
    by (rule dropWhile_id)
  finally show ?thesis
    by (auto simp: hd_rev)
qed

lemma length_lstrip: "length (lstrip s) \<le> length s"
  by (simp add: lstrip_def length_dropWhile_le)

lemma length_rstrip: "length (rstrip s) \<le> length s"
  using length_dropWhile_le [of isspace "rev s"] by (simp add: rstrip_def)

lemma strip_id: "strip s = s \<longleftrightarrow> s = [] \<or> (\<not> isspace (hd s) \<and> \<not> isspace (last s))"
proof
  assume eq: "strip s = s"
  have "length s = length (rstrip (lstrip s))"
    using eq by (simp add: strip_def)
  then have "length (lstrip s) = length s"
    using length_lstrip [of s] length_rstrip [of "lstrip s"] by simp
  then have l: "lstrip s = s"
    unfolding lstrip_def by (rule dropWhile_same_length)
  then have "rstrip s = s"
    using eq by (simp add: strip_def)
  with l show "s = [] \<or> (\<not> isspace (hd s) \<and> \<not> isspace (last s))"
    by (auto simp: lstrip_id rstrip_id)
next
  assume "s = [] \<or> (\<not> isspace (hd s) \<and> \<not> isspace (last s))"
  then have "lstrip s = s" "rstrip s = s"
    by (auto simp: lstrip_id rstrip_id)
  then show "strip s = s"
    by (simp add: strip_def)
qed

lemma no_marker_across_newline:
  assumes "\<not> sublist [46, 32 :: nat] x" and "\<not> sublist [46, 32] y"
  shows "\<not> sublist [46, 32] (x @ 10 # y)"
proof
  assume "sublist [46, 32] (x @ 10 # y)"
  then consider "sublist [46, 32] x" | "sublist [46, 32] (10 # y)"
    | xs1 xs2 where "[46, 32 :: nat] = xs1 @ xs2" "suffix xs1 x" "prefix xs2 (10 # y)"
    by (auto simp: sublist_append)
  then show False
  proof cases
    case 1
    with assms show False by simp
  next
    case 2
    with assms show False by (simp add: sublist_Cons_right)
  next
    case 3
    then show False
      using assms by (auto simp: append_eq_Cons_conv Cons_eq_append_conv)
  qed
qed

lemma join_newline_good:
  assumes "ss \<noteq> []"
    and "list_all (\<lambda>s. s \<noteq> [] \<and> strip s = s \<and> \<not> sublist [46, 32] s) ss"
  shows "join [10] ss \<noteq> [] \<and> \<not> isspace (hd (join [10] ss)) \<and>
         \<not> isspace (last (join [10] ss)) \<and> \<not> sublist [46, 32] (join [10] ss)"
  using assms
proof (induction "[10] :: nat list" ss rule: join.induct)
  case 1
  then show ?case by simp
next
  case (2 x)
  then show ?case by (auto simp: strip_id)
next
  case (3 x y ys)
  then have rest: "join [10] (y # ys) \<noteq> [] \<and> \<not> isspace (last (join [10] (y # ys))) \<and>
      \<not> sublist [46, 32] (join [10] (y # ys))"
    by simp
  have x: "x \<noteq> [] \<and> \<not> isspace (hd x) \<and> \<not> sublist [46, 32] x"
    using 3(3) by (auto simp: strip_id)
  show ?case
    using rest x no_marker_across_newline [of x "join [10] (y # ys)"] by simp
qed

lemma split_into_sentences_lines:
  assumes "ss \<noteq> []"
    and "list_all (\<lambda>s. s \<noteq> [] \<and> strip s = s \<and> \<not> sublist (ascii ''. '') s) ss"
  shows "split_into_sentences (join [10] ss) = [join [10] ss]"
proof -
  have g: "join [10] ss \<noteq> [] \<and> \<not> isspace (hd (join [10] ss)) \<and>
         \<not> isspace (last (join [10] ss)) \<and> \<not> sublist [46, 32] (join [10] ss)"
    using assms join_newline_good [of ss] by (simp add: dot_space)
  then have "strip (join [10] ss) = join [10] ss"
    by (simp add: strip_id)
  then show ?thesis
    using g split_into_sentences_single [of "join [10] ss"] by (simp add: dot_space)
qed

text \<open>
  Claim C7, amended. Segmenting is idempotent on segmented sentences: segmenting each
  sentence that \<open>split_into_sentences\<close> returned gives the same sentences in the same
  order; and for every sequence of sentences that are non-empty, stripped and without a
  period-space marker, segmenting one of them returns just that sentence, and segmenting
  their text joined by the marker returns the sequence unchanged. Written one per line
  they come back as one sentence, the whole text, since a line break is no boundary.
\<close>

theorem segment_idempotent:
  "concat (map split_into_sentences (split_into_sentences t)) = split_into_sentences t
   \<and> (list_all (\<lambda>s. s \<noteq> [] \<and> strip s = s \<and> \<not> sublist (ascii ''. '') s) ss \<longrightarrow>
        map split_into_sentences ss = map (\<lambda>s. [s]) ss \<and>
        split_into_sentences (join (ascii ''. '') ss) = ss \<and>
        (ss \<noteq> [] \<longrightarrow> split_into_sentences (join [10] ss) = [join [10] ss]))"
proof -
  have "map split_into_sentences (split_into_sentences t) =
        map (\<lambda>s. [s]) (split_into_sentences t)"
    using split_into_sentences_no_marker by (rule split_into_sentences_each)
  then have "concat (map split_into_sentences (split_into_sentences t)) =
             concat (map (\<lambda>s. [s]) (split_into_sentences t))"
    by (rule arg_cong)
  then have "concat (map split_into_sentences (split_into_sentences t)) =
             split_into_sentences t"
    by (simp only: concat_map_singleton list.map_ident)
  then show ?thesis
    using split_into_sentences_each [of ss] split_into_sentences_join [of ss]
      split_into_sentences_lines [of ss]
    by blast
qed

theorem segment_idempotent_witness:
  "list_all (\<lambda>s. s \<noteq> [] \<and> strip s = s \<and> \<not> sublist (ascii ''. '') s)
     [ascii ''Bir'', ascii ''Iki.'']
   \<and> map split_into_sentences [ascii ''Bir'', ascii ''Iki.''] = [[ascii ''Bir''], [ascii ''Iki.'']]
   \<and> split_into_sentences (ascii ''Bir. Iki.'') = [ascii ''Bir'', ascii ''Iki.'']
   \<and> split_into_sentences (ascii ''Bir'' @ [10] @ ascii ''Iki.'') =
       [ascii ''Bir'' @ [10] @ ascii ''Iki.'']"
proof -
  have h: "list_all (\<lambda>s. s \<noteq> [] \<and> strip s = s \<and> \<not> sublist (ascii ''. '') s)
             [ascii ''Bir'', ascii ''Iki.'']"
    by (simp add: ascii_def sublist_Cons_right strip_def lstrip_def rstrip_def isspace_def)
  have "join (ascii ''. '') [ascii ''Bir'', ascii ''Iki.''] = ascii ''Bir. Iki.''"
    by (simp add: ascii_def)
  then show ?thesis
    using h segment_idempotent [of "[]" "[ascii ''Bir'', ascii ''Iki.'']"] by simp
qed

section \<open>Keywords\<close>

lemma split_words_tokens:
  "list_all (\<lambda>c. \<not> isspace c) cur \<Longrightarrow>
   list_all (\<lambda>w. w \<noteq> [] \<and> list_all (\<lambda>c. \<not> isspace c) w) (split_words cur s)"
  by (induction cur s rule: split_words.induct) simp_all

lemma concat_split_words:
  "concat (split_words cur s) = cur @ filter (\<lambda>c. \<not> isspace c) s"
  by (induction cur s rule: split_words.induct) simp_all

lemma split_words_skip_space:
  "list_all isspace pre \<Longrightarrow> split_words [] (pre @ s) = split_words [] s"
  by (induction pre) simp_all

lemma split_words_read:
  "list_all (\<lambda>c. \<not> isspace c) w \<Longrightarrow> split_words cur (w @ s) = split_words (cur @ w) s"
  by (induction w arbitrary: cur) simp_all

lemma split_whitespace_blank: "list_all isspace s \<Longrightarrow> split_whitespace s = []"
  using split_words_skip_space [of s "[]"] by (simp add: split_whitespace_def)

lemma split_whitespace_last:
  assumes "list_all isspace pre" and "w \<noteq> []" and "list_all (\<lambda>c. \<not> isspace c) w"
  shows "split_whitespace (pre @ w) = [w]"
  using assms split_words_read [of w "[]" "[]"]
  by (simp add: split_whitespace_def split_words_skip_space)

lemma split_whitespace_word:
  assumes "list_all isspace pre" and "w \<noteq> []" and "list_all (\<lambda>c. \<not> isspace c) w"
    and "isspace sp"
  shows "split_whitespace (pre @ w @ sp # rest) = w # split_whitespace rest"
  using assms split_words_read [of w "[]" "sp # rest"]
  by (simp add: split_whitespace_def split_words_skip_space)

lemma filter_empty_list_all: "(filter P xs = []) = list_all (\<lambda>x. \<not> P x) xs"
  by (induction xs) simp_all

lemma count_list_filter: "P w \<Longrightarrow> count_list (filter P xs) w = count_list xs w"
  by (induction xs) auto

text \<open>
  Claim C8. \<open>extract_keywords\<close> lower-cases the query, splits it at whitespace and keeps,
  in order and with their repetitions, exactly the words that are not in the stop-word
  set. Splitting at whitespace yields non-empty words without whitespace that together
  hold the other characters of the text: blank text has no word, and a word between
  whitespace is cut off as it stands. The result is empty
  exactly when every word is a stop word, in particular for the empty query; a word that
  is no stop word is kept as often as it occurs (no deduplication, no stemming); and the
  query \<open>nedir bu bilgi\<close> yields the single keyword \<open>bilgi\<close>.
\<close>

theorem extract_keywords_spec:
  "extract_keywords lower cfg q =
     filter (\<lambda>w. w \<notin> STOPWORDS cfg) (split_whitespace (lower q))
   \<and> list_all (\<lambda>w. w \<noteq> [] \<and> list_all (\<lambda>c. \<not> isspace c) w) (split_whitespace s)
   \<and> concat (split_whitespace s) = filter (\<lambda>c. \<not> isspace c) s
   \<and> (list_all isspace s \<longrightarrow> split_whitespace s = [])
   \<and> (list_all isspace pre \<and> w \<noteq> [] \<and> list_all (\<lambda>c. \<not> isspace c) w \<longrightarrow>
        split_whitespace (pre @ w) = [w] \<and>
        (isspace sp \<longrightarrow> split_whitespace (pre @ w @ sp # rest) = w # split_whitespace rest))
   \<and> (extract_keywords lower cfg q = []) =
        list_all (\<lambda>w. w \<in> STOPWORDS cfg) (split_whitespace (lower q))
   \<and> (lower [] = [] \<longrightarrow> extract_keywords lower cfg [] = [])
   \<and> (k \<notin> STOPWORDS cfg \<longrightarrow>
        count_list (extract_keywords lower cfg q) k = count_list (split_whitespace (lower q)) k)
   \<and> extract_keywords ascii_lower Config (ascii ''nedir bu bilgi'') = [ascii ''bilgi'']"
proof -
  have "extract_keywords ascii_lower Config (ascii ''nedir bu bilgi'') = [ascii ''bilgi'']"
    by (simp add: extract_keywords_def split_whitespace_def ascii_lower_def ascii_def
        isspace_def Config_def)
  moreover have "lower [] = [] \<longrightarrow> extract_keywords lower cfg [] = []"
    by (simp add: extract_keywords_def split_whitespace_def)
  moreover have "k \<notin> STOPWORDS cfg \<longrightarrow>
        count_list (extract_keywords lower cfg q) k = count_list (split_whitespace (lower q)) k"
    by (simp add: extract_keywords_def count_list_filter)
  moreover have "(extract_keywords lower cfg q = []) =
        list_all (\<lambda>w. w \<in> STOPWORDS cfg) (split_whitespace (lower q))"
    by (simp add: extract_keywords_def filter_empty_list_all)
  ultimately show ?thesis
    using split_whitespace_blank [of s] split_whitespace_last [of pre w]
      split_whitespace_word [of pre w sp rest] split_words_tokens [of "[]" s]
      concat_split_words [of "[]" s]
    by (simp add: extract_keywords_def split_whitespace_def [of s])
qed

theorem extract_keywords_spec_witness:
  "ascii_lower [] = [] \<and> extract_keywords ascii_lower Config [] = []
   \<and> list_all isspace (ascii '' '') \<and> ascii ''bilgi'' \<noteq> []
   \<and> list_all (\<lambda>c. \<not> isspace c) (ascii ''bilgi'') \<and> isspace 32
   \<and> ascii ''bilgi'' \<notin> STOPWORDS Config
   \<and> split_whitespace (ascii '' bilgi bilgi'') = [ascii ''bilgi'', ascii ''bilgi'']
   \<and> count_list (extract_keywords ascii_lower Config (ascii ''Bilgi bu  BILGI'')) (ascii ''bilgi'') = 2"
proof -
  have a: "ascii_lower [] = []"
    by (simp add: ascii_lower_def)
  have b: "list_all isspace (ascii '' '') \<and> ascii ''bilgi'' \<noteq> []
     \<and> list_all (\<lambda>c. \<not> isspace c) (ascii ''bilgi'') \<and> isspace 32"
    by (simp add: ascii_def isspace_def)
  have c: "ascii ''bilgi'' \<notin> STOPWORDS Config"
    by (simp add: Config_def ascii_def)
  have d: "split_whitespace (ascii ''bilgi'') = [ascii ''bilgi'']"
    by (simp add: split_whitespace_def ascii_def isspace_def)
  have e: "ascii '' '' @ ascii ''bilgi'' @ 32 # ascii ''bilgi'' = ascii '' bilgi bilgi''"
    by (simp add: ascii_def)
  have f: "count_list (split_whitespace (ascii_lower (ascii ''Bilgi bu  BILGI''))) (ascii ''bilgi'') = 2"
    by (simp add: split_whitespace_def ascii_def ascii_lower_def isspace_def)
  note th = extract_keywords_spec [of ascii_lower Config "ascii ''Bilgi bu  BILGI''" "[]"
        "ascii '' ''" "ascii ''bilgi''" 32 "ascii ''bilgi''" "ascii ''bilgi''"]
  have g: "count_list (extract_keywords ascii_lower Config (ascii ''Bilgi bu  BILGI''))
             (ascii ''bilgi'') = 2"
    using th c f by metis
  have "split_whitespace (ascii '' '' @ ascii ''bilgi'' @ 32 # ascii ''bilgi'') =
        ascii ''bilgi'' # split_whitespace (ascii ''bilgi'')"
    using th b by metis
  then have h: "split_whitespace (ascii '' bilgi bilgi'') = [ascii ''bilgi'', ascii ''bilgi'']"
    unfolding e d .
  have i: "extract_keywords ascii_lower Config [] = []"
    using th a by metis
  show ?thesis
    using a b c g h i by blast
qed

section \<open>The relevance filter\<close>

lemma filter_loop_eq:
  "filter_loop lower cfg kws acc cands =
     acc @ map fst (filter (\<lambda>(s, d). is_sentence_relevant lower s kws \<and>
                                 float_le d (RELEVANCE_THRESHOLD cfg)) cands)"
  by (induction lower cfg kws acc cands rule: filter_loop.induct) simp_all

lemma list_ex_nonempty: "list_ex P xs = (xs \<noteq> [] \<and> (\<exists>x. x \<in> set xs \<and> P x))"
  by (auto simp: list_ex_iff)

text \<open>
  Claim C1. For every threshold \<open>thr\<close>, keyword list and pair of lists of sentences and
  distances, the sentences admitted are those candidates, in the order of the input, for
  which the keyword list is non-empty and some keyword is a substring of the lower-cased
  sentence, and whose distance is at most the threshold; with an empty keyword list no
  candidate is admitted.
\<close>

theorem gate_admission:
  "relevant_sentences lower (cfg\<lparr>RELEVANCE_THRESHOLD := thr\<rparr>) kws sents ds =
     map fst (filter (\<lambda>(s, d). (kws \<noteq> [] \<and> (\<exists>k. k \<in> set kws \<and> sublist k (lower s))) \<and>
                                 float_le d thr) (zip sents ds))
   \<and> relevant_sentences lower (cfg\<lparr>RELEVANCE_THRESHOLD := thr\<rparr>) [] sents ds = []"
  unfolding relevant_sentences_def filter_loop_eq is_sentence_relevant_def
  by (simp add: list_ex_nonempty [symmetric])

theorem gate_admission_witness:
  "relevant_sentences ascii_lower Config [ascii ''elma''] [ELMA, ARABA]
     [Float (2 / 10), Float (9 / 10)] = [ELMA]
   \<and> relevant_sentences ascii_lower Config [] [ELMA, ARABA] [Float (2 / 10), Float (9 / 10)] = []"
proof -
  have "Config\<lparr>RELEVANCE_THRESHOLD := Float (1 / 2)\<rparr> = Config"
    by (simp add: Config_def)
  then show ?thesis
    using gate_admission [where lower = ascii_lower and cfg = Config and thr = "Float (1 / 2)"
        and kws = "[ascii ''elma'']" and sents = "[ELMA, ARABA]"
        and ds = "[Float (2 / 10), Float (9 / 10)]"]
    by (simp add: ascii_lower_def ascii_def ELMA_def ARABA_def sublist_Cons_right)
qed

lemma float_le_NaN: "float_le d thr = (d \<noteq> NaN \<and> float_le d thr)"
  by (cases d) auto

lemma zip_take_min:
  "zip (take (min (length xs) (length ys)) xs) (take (min (length xs) (length ys)) ys) = zip xs ys"
proof (induction xs arbitrary: ys)
  case Nil
  then show ?case by simp
next
  case (Cons x xs)
  then show ?case by (cases ys) simp_all
qed

text \<open>
  Claim C3. The relevance filter and the answerable test are total functions of the
  keyword list, the sentence list and the distance list. With no candidate (either list
  empty) nothing is admitted and the query is not answerable; a candidate whose distance
  is NaN is never admitted and the candidates behind it are examined as usual; lists of
  different lengths are read up to the shorter one.
\<close>

theorem gate_total:
  "relevant_sentences lower cfg kws [] ds = []
   \<and> relevant_sentences lower cfg kws sents [] = []
   \<and> not_found_test cfg (relevant_sentences lower cfg kws [] ds) ds
   \<and> not_found_test cfg (relevant_sentences lower cfg kws sents []) []
   \<and> relevant_sentences lower cfg kws sents ds =
       map fst (filter (\<lambda>(s, d). d \<noteq> NaN \<and> is_sentence_relevant lower s kws \<and>
                                   float_le d (RELEVANCE_THRESHOLD cfg)) (zip sents ds))
   \<and> relevant_sentences lower cfg kws (s # sents) (NaN # ds) =
       relevant_sentences lower cfg kws sents ds
   \<and> relevant_sentences lower cfg kws sents ds =
       relevant_sentences lower cfg kws
         (take (min (length sents) (length ds)) sents)
         (take (min (length sents) (length ds)) ds)"
proof -
  have "(\<lambda>(s, d). is_sentence_relevant lower s kws \<and> float_le d (RELEVANCE_THRESHOLD cfg)) =
        (\<lambda>(s, d). d \<noteq> NaN \<and> is_sentence_relevant lower s kws \<and>
                   float_le d (RELEVANCE_THRESHOLD cfg))"
    using float_le_NaN by auto
  then have "relevant_sentences lower cfg kws sents ds =
       map fst (filter (\<lambda>(s, d). d \<noteq> NaN \<and> is_sentence_relevant lower s kws \<and>
                                   float_le d (RELEVANCE_THRESHOLD cfg)) (zip sents ds))"
    by (simp add: relevant_sentences_def filter_loop_eq)
  moreover have "relevant_sentences lower cfg kws sents ds =
       relevant_sentences lower cfg kws
         (take (min (length sents) (length ds)) sents)
         (take (min (length sents) (length ds)) ds)"
    unfolding relevant_sentences_def zip_take_min ..
  ultimately show ?thesis
    by (simp add: relevant_sentences_def not_found_test_def)
qed

theorem gate_total_witness:
  "relevant_sentences ascii_lower Config [ascii ''elma''] [ELMA, ELMA, ARABA]
     [NaN, Float (2 / 10)] =
   relevant_sentences ascii_lower Config [ascii ''elma''] [ELMA, ARABA] [Float (2 / 10)]
   \<and> relevant_sentences ascii_lower Config [ascii ''elma''] [ELMA, ARABA] [Float (2 / 10)] = [ELMA]"
  using gate_total [where lower = ascii_lower and cfg = Config and kws = "[ascii ''elma'']"
      and s = ELMA and sents = "[ELMA, ARABA]" and ds = "[Float (2 / 10)]"]
  by (simp add: is_sentence_relevant_def ascii_lower_def ascii_def ELMA_def ARABA_def
      Config_def sublist_Cons_right)

section \<open>The answer\<close>

lemma generate_answer_requests:
  "context_sentences \<noteq> [] \<Longrightarrow> snd (generate_answer cfg post question context_sentences) \<noteq> []"
  by (simp add: generate_answer_def Let_def split: sum.splits)

lemma not_found_test_iff:
  "not_found_test cfg relevant ds =
     (relevant = [] \<or> (\<exists>d0 rest. ds = d0 # rest \<and> float_gt d0 (RELEVANCE_THRESHOLD cfg)))"
  by (simp add: not_found_test_def split: list.splits)

lemma process_query_not_found:
  "(process_query lower cfg query_similar post query = (NOT_FOUND, [])) =
     not_found_test cfg
       (relevant_sentences lower cfg (extract_keywords lower cfg query)
          (map text_of (first_or_empty (metadatas (query_similar query))))
          (first_or_empty (distances (query_similar query))))
       (first_or_empty (distances (query_similar query)))"
proof (cases "not_found_test cfg
       (relevant_sentences lower cfg (extract_keywords lower cfg query)
          (map text_of (first_or_empty (metadatas (query_similar query))))
          (first_or_empty (distances (query_similar query))))
       (first_or_empty (distances (query_similar query)))")
  case True
  then show ?thesis by (simp add: process_query_def Let_def)
next
  case False
  then have ne: "relevant_sentences lower cfg (extract_keywords lower cfg query)
          (map text_of (first_or_empty (metadatas (query_similar query))))
          (first_or_empty (distances (query_similar query))) \<noteq> []"
    by (auto simp: not_found_test_def)
  have "snd (process_query lower cfg query_similar post query) \<noteq> []"
    using False generate_answer_requests [OF ne] by (simp add: process_query_def Let_def)
  then have "process_query lower cfg query_similar post query \<noteq> (NOT_FOUND, [])"
    by auto
  with False show ?thesis by simp
qed

lemma far_first_relevant:
  "relevant_sentences ascii_lower Config (extract_keywords ascii_lower Config (ascii ''elma''))
     (map text_of (first_or_empty (metadatas (far_first (ascii ''elma'')))))
     (first_or_empty (distances (far_first (ascii ''elma'')))) = [ELMA]"
  by (simp add: relevant_sentences_def is_sentence_relevant_def extract_keywords_def
      split_whitespace_def ascii_lower_def ascii_def isspace_def Config_def far_first_def
      results_of_def first_or_empty_def ELMA_def ARABA_def sublist_Cons_right)

text \<open>
  Claim C2. \<open>process_query\<close> returns the fixed answer \<open>NOT_FOUND\<close> without sending a
  request to the language model if and only if no sentence was admitted or the first
  distance exceeds the threshold. The first distance is used whether or not the first
  candidate was admitted: for the results \<open>far_first\<close> the second sentence is admitted and
  the answer is still \<open>NOT_FOUND\<close>.
\<close>

theorem not_found_iff:
  "(process_query lower cfg query_similar post query = (NOT_FOUND, [])) =
     (relevant_sentences lower cfg (extract_keywords lower cfg query)
        (map text_of (first_or_empty (metadatas (query_similar query))))
        (first_or_empty (distances (query_similar query))) = []
      \<or> (\<exists>d0 rest. first_or_empty (distances (query_similar query)) = d0 # rest \<and>
            float_gt d0 (RELEVANCE_THRESHOLD cfg)))
   \<and> relevant_sentences ascii_lower Config (extract_keywords ascii_lower Config (ascii ''elma''))
        (map text_of (first_or_empty (metadatas (far_first (ascii ''elma'')))))
        (first_or_empty (distances (far_first (ascii ''elma'')))) = [ELMA]
   \<and> process_query ascii_lower Config far_first post (ascii ''elma'') = (NOT_FOUND, [])"
proof -
  have "process_query ascii_lower Config far_first post (ascii ''elma'') = (NOT_FOUND, [])"
    unfolding process_query_not_found not_found_test_iff
    by (simp add: far_first_def results_of_def first_or_empty_def Config_def)
  then show ?thesis
    using far_first_relevant
    unfolding process_query_not_found [of lower cfg query_similar post query] not_found_test_iff
    by blast
qed

theorem not_found_iff_witness:
  "process_query ascii_lower (Config\<lparr>RELEVANCE_THRESHOLD := Float (1 / 10)\<rparr>) near_elma
     (post_answers (ascii ''Evet'')) (ascii ''elma'') = (NOT_FOUND, [])
   \<and> process_query ascii_lower Config near_elma (post_answers (ascii ''Evet'')) (ascii ''elma'')
       \<noteq> (NOT_FOUND, [])"
proof -
  have a: "first_or_empty (distances (near_elma (ascii ''elma''))) =
             [Float (2 / 10), Float (9 / 10)]"
    by (simp add: near_elma_def results_of_def first_or_empty_def)
  have b: "relevant_sentences ascii_lower Config
             (extract_keywords ascii_lower Config (ascii ''elma''))
             (map text_of (first_or_empty (metadatas (near_elma (ascii ''elma'')))))
             (first_or_empty (distances (near_elma (ascii ''elma'')))) \<noteq> []"
    by (simp add: relevant_sentences_def is_sentence_relevant_def extract_keywords_def
        split_whitespace_def ascii_lower_def ascii_def isspace_def Config_def near_elma_def
        results_of_def first_or_empty_def ELMA_def ARABA_def sublist_Cons_right)
  have "process_query ascii_lower (Config\<lparr>RELEVANCE_THRESHOLD := Float (1 / 10)\<rparr>) near_elma
     (post_answers (ascii ''Evet'')) (ascii ''elma'') = (NOT_FOUND, [])"
    using a
      not_found_iff [where lower = ascii_lower
        and cfg = "Config\<lparr>RELEVANCE_THRESHOLD := Float (1 / 10)\<rparr>"
        and query_similar = near_elma and post = "post_answers (ascii ''Evet'')"
        and query = "ascii ''elma''"]
    by simp
  moreover have "process_query ascii_lower Config near_elma (post_answers (ascii ''Evet''))
       (ascii ''elma'') \<noteq> (NOT_FOUND, [])"
    using a b
      not_found_iff [where lower = ascii_lower and cfg = Config and query_similar = near_elma
        and post = "post_answers (ascii ''Evet'')" and query = "ascii ''elma''"]
    by (simp add: Config_def)
  ultimately show ?thesis ..
qed

lemma near_elma_relevant:
  "relevant_sentences ascii_lower Config (extract_keywords ascii_lower Config (ascii ''elma''))
     (map text_of (first_or_empty (metadatas (near_elma (ascii ''elma'')))))
     (first_or_empty (distances (near_elma (ascii ''elma'')))) = [ELMA]"
  by (simp add: relevant_sentences_def is_sentence_relevant_def extract_keywords_def
      split_whitespace_def ascii_lower_def ascii_def isspace_def Config_def near_elma_def
      results_of_def first_or_empty_def ELMA_def ARABA_def sublist_Cons_right)

lemma near_elma_answerable:
  "\<not> not_found_test Config [ELMA] (first_or_empty (distances (near_elma (ascii ''elma''))))"
  by (simp add: not_found_test_def near_elma_def results_of_def first_or_empty_def Config_def)

lemma process_query_near_elma:
  "process_query ascii_lower Config near_elma post (ascii ''elma'') =
     generate_answer Config post (ascii ''elma'') [ELMA]"
  using near_elma_relevant near_elma_answerable
  by (simp add: process_query_def Let_def)

lemma fallbacks_differ:
  "CONNECTION_FAILED \<noteq> GENERATION_FAILED \<and> CONNECTION_FAILED \<noteq> NOT_FOUND \<and>
   GENERATION_FAILED \<noteq> NOT_FOUND"
  by (simp add: CONNECTION_FAILED_def GENERATION_FAILED_def NOT_FOUND_def ascii_def)

lemma generate_answer_raises:
  assumes "context_sentences \<noteq> []" and "\<And>request. try_generate post request = Inl e"
  shows "fst (generate_answer cfg post question context_sentences) =
           (if is_ConnectionError e then CONNECTION_FAILED else GENERATION_FAILED)"
  using assms by (simp add: generate_answer_def Let_def)

text \<open>
  Claim C4, as stated, fails: a timeout while reading the answer and any other failure
  give the same fallback string, so the three kinds of failure do not give three
  different strings.
\<close>

theorem timeout_has_no_own_fallback:
  "fst (process_query ascii_lower Config near_elma post_read_timeout (ascii ''elma'')) =
   fst (process_query ascii_lower Config near_elma post_other_failure (ascii ''elma''))"
  unfolding process_query_near_elma
  by (simp add: generate_answer_raises ELMA_def try_generate_def post_read_timeout_def
      post_other_failure_def)

text \<open>
  Claim C4, amended. Every failure of the synthesis is recoverable and is mapped to one
  of two different fixed strings: a connection failure (a timeout while connecting
  included) to \<open>CONNECTION_FAILED\<close>, every other failure (a timeout while reading
  included) to \<open>GENERATION_FAILED\<close>. The string is the answer of \<open>process_query\<close>, and
  the query loop prints it and goes on with the next input.
\<close>

theorem synthesis_failure_fallbacks:
  assumes "\<And>request. try_generate post request = Inl e"
    and "\<not> not_found_test cfg
           (relevant_sentences lower cfg (extract_keywords lower cfg query)
              (map text_of (first_or_empty (metadatas (query_similar query))))
              (first_or_empty (distances (query_similar query))))
           (first_or_empty (distances (query_similar query)))"
    and "lower query \<noteq> EXIT_TOKEN"
  shows "fst (process_query lower cfg query_similar post query) =
           (if is_ConnectionError e then CONNECTION_FAILED else GENERATION_FAILED)
         \<and> query_loop lower cfg query_similar post (query # inputs) =
             ANSWER_HEADER #
             (if is_ConnectionError e then CONNECTION_FAILED else GENERATION_FAILED) #
             query_loop lower cfg query_similar post inputs
         \<and> CONNECTION_FAILED \<noteq> GENERATION_FAILED
         \<and> is_ConnectionError ConnectionError \<and> is_ConnectionError ConnectTimeout
         \<and> \<not> is_ConnectionError ReadTimeout \<and> \<not> is_ConnectionError OtherException"
proof -
  have ne: "relevant_sentences lower cfg (extract_keywords lower cfg query)
              (map text_of (first_or_empty (metadatas (query_similar query))))
              (first_or_empty (distances (query_similar query))) \<noteq> []"
    using assms(2) by (auto simp: not_found_test_def)
  have "fst (process_query lower cfg query_similar post query) =
           (if is_ConnectionError e then CONNECTION_FAILED else GENERATION_FAILED)"
    using assms(2) generate_answer_raises [OF ne assms(1)]
    by (simp add: process_query_def Let_def)
  then show ?thesis
    using assms(3) fallbacks_differ by simp
qed

theorem synthesis_failure_fallbacks_witness:
  "try_generate post_read_timeout \<lparr> url = [], json_model = [], json_prompt = [],
       json_stream = False, timeout = 0 \<rparr> = Inl ReadTimeout
   \<and> ascii_lower (ascii ''elma'') \<noteq> EXIT_TOKEN
   \<and> query_loop ascii_lower Config near_elma post_read_timeout
       [ascii ''elma'', ascii ''elma'', EXIT_TOKEN] =
       [ANSWER_HEADER, GENERATION_FAILED, ANSWER_HEADER, GENERATION_FAILED, EXIT_MESSAGE]
   \<and> query_loop ascii_lower Config near_elma post_connection_error
       [ascii ''elma'', ascii ''elma'', EXIT_TOKEN] =
       [ANSWER_HEADER, CONNECTION_FAILED, ANSWER_HEADER, CONNECTION_FAILED, EXIT_MESSAGE]"
proof -
  have a: "try_generate post_read_timeout request = Inl ReadTimeout" for request
    by (simp add: try_generate_def post_read_timeout_def)
  have b: "\<not> not_found_test Config
           (relevant_sentences ascii_lower Config
              (extract_keywords ascii_lower Config (ascii ''elma''))
              (map text_of (first_or_empty (metadatas (near_elma (ascii ''elma'')))))
              (first_or_empty (distances (near_elma (ascii ''elma'')))))
           (first_or_empty (distances (near_elma (ascii ''elma''))))"
    unfolding near_elma_relevant by (rule near_elma_answerable)
  have c: "ascii_lower (ascii ''elma'') \<noteq> EXIT_TOKEN"
    by (simp add: ascii_lower_def ascii_def EXIT_TOKEN_def)
  have d: "query_loop ascii_lower Config near_elma post_read_timeout [EXIT_TOKEN] = [EXIT_MESSAGE]"
    by (simp add: ascii_lower_def EXIT_TOKEN_def)
  note th = synthesis_failure_fallbacks [of post_read_timeout ReadTimeout Config ascii_lower
      "ascii ''elma''" near_elma, OF a b c]
  have "query_loop ascii_lower Config near_elma post_read_timeout
          [ascii ''elma'', ascii ''elma'', EXIT_TOKEN] =
        [ANSWER_HEADER, GENERATION_FAILED, ANSWER_HEADER, GENERATION_FAILED, EXIT_MESSAGE]"
    using th [of "[ascii ''elma'', EXIT_TOKEN]"] th [of "[EXIT_TOKEN]"] d by simp
  moreover have "query_loop ascii_lower Config near_elma post_connection_error
          [ascii ''elma'', ascii ''elma'', EXIT_TOKEN] =
        [ANSWER_HEADER, CONNECTION_FAILED, ANSWER_HEADER, CONNECTION_FAILED, EXIT_MESSAGE]"
  proof -
    have a': "try_generate post_connection_error request = Inl ConnectionError" for request
      by (simp add: try_generate_def post_connection_error_def)
    have d': "query_loop ascii_lower Config near_elma post_connection_error [EXIT_TOKEN] =
                [EXIT_MESSAGE]"
      by (simp add: ascii_lower_def EXIT_TOKEN_def)
    note th' = synthesis_failure_fallbacks [of post_connection_error ConnectionError Config
        ascii_lower "ascii ''elma''" near_elma, OF a' b c]
    show ?thesis
      using th' [of "[ascii ''elma'', EXIT_TOKEN]"] th' [of "[EXIT_TOKEN]"] d' by simp
  qed
  ultimately show ?thesis
    using a c by simp
qed


lemma strip_NOT_FOUND: "strip NOT_FOUND = NOT_FOUND"
  by (simp add: NOT_FOUND_def ascii_def strip_def lstrip_def rstrip_def isspace_def)

lemma generate_answer_success:
  assumes "context_sentences \<noteq> []"
    and "post \<lparr> url = OLLAMA_API_URL cfg, json_model = LLM_MODEL cfg,
                 json_prompt = make_prompt question (join (ascii '' '') context_sentences),
                 json_stream = False, timeout = OLLAMA_TIMEOUT cfg \<rparr> = Inr response"
    and "\<not> (400 \<le> post_status_code response \<and> post_status_code response < 600)"
    and "json response = Some (JObject result)"
  shows "generate_answer cfg post question context_sentences =
           (case result (ascii ''response'') of
              None \<Rightarrow> NOT_FOUND
            | Some (JString answer) \<Rightarrow> strip answer
            | Some JNotString \<Rightarrow> GENERATION_FAILED,
            [\<lparr> url = OLLAMA_API_URL cfg, json_model = LLM_MODEL cfg,
                json_prompt = make_prompt question (join (ascii '' '') context_sentences),
                json_stream = False, timeout = OLLAMA_TIMEOUT cfg \<rparr>])"
proof -
  have "raise_for_status (post_status_code response) = Inr ()"
    using assms(3) by (simp add: raise_for_status_def)
  then show ?thesis
    using assms(1,2,4)
    by (simp add: generate_answer_def try_generate_def Let_def strip_NOT_FOUND
        split: option.splits json_value.splits)
qed

text \<open>
  Claim C5, as stated, fails: an answer of the language model that begins with a blank is
  not returned as it is.
\<close>

theorem answer_is_stripped:
  "fst (process_query ascii_lower Config near_elma (post_answers (ascii '' Evet'')) (ascii ''elma''))
     \<noteq> ascii '' Evet''"
proof -
  have "generate_answer Config (post_answers (ascii '' Evet'')) (ascii ''elma'') [ELMA] =
          (strip (ascii '' Evet''),
           [\<lparr> url = OLLAMA_API_URL Config, json_model = LLM_MODEL Config,
               json_prompt = make_prompt (ascii ''elma'') (join (ascii '' '') [ELMA]),
               json_stream = False, timeout = OLLAMA_TIMEOUT Config \<rparr>])"
    by (simp add: generate_answer_def try_generate_def raise_for_status_def Let_def
        post_answers_def response_object_def ELMA_def)
  then show ?thesis
    unfolding process_query_near_elma
    by (simp add: ascii_def strip_def lstrip_def rstrip_def isspace_def)
qed

text \<open>
  Claim C5, amended. When the query is answerable, \<open>process_query\<close> joins the admitted
  sentences with single blanks, sends one request whose prompt holds the query and that
  context, and returns the \<open>response\<close> string of a successful answer with leading and
  trailing whitespace removed.
\<close>

theorem answerable_query_is_synthesized:
  assumes "relevant = relevant_sentences lower cfg (extract_keywords lower cfg query)
              (map text_of (first_or_empty (metadatas (query_similar query))))
              (first_or_empty (distances (query_similar query)))"
    and "\<not> not_found_test cfg relevant (first_or_empty (distances (query_similar query)))"
    and "request = \<lparr> url = OLLAMA_API_URL cfg, json_model = LLM_MODEL cfg,
                      json_prompt = make_prompt query (join (ascii '' '') relevant),
                      json_stream = False, timeout = OLLAMA_TIMEOUT cfg \<rparr>"
    and "post request = Inr response"
    and "\<not> (400 \<le> post_status_code response \<and> post_status_code response < 600)"
    and "json response = Some (JObject result)"
    and "result (ascii ''response'') = Some (JString answer)"
  shows "process_query lower cfg query_similar post query = (strip answer, [request])"
proof -
  have ne: "relevant \<noteq> []"
    using assms(2) by (auto simp: not_found_test_def)
  have "process_query lower cfg query_similar post query =
          generate_answer cfg post query relevant"
    using assms(1,2) by (simp add: process_query_def Let_def)
  also have "\<dots> = (strip answer, [request])"
    using ne assms(3-7)
      generate_answer_success [where context_sentences = relevant and post = post
        and cfg = cfg and question = query and response = response and result = result]
    by simp
  finally show ?thesis .
qed


theorem answerable_query_is_synthesized_witness:
  "\<not> not_found_test Config [ELMA] (first_or_empty (distances (near_elma (ascii ''elma''))))
   \<and> post_answers (ascii '' Evet'')
        \<lparr> url = OLLAMA_API_URL Config, json_model = LLM_MODEL Config,
          json_prompt = make_prompt (ascii ''elma'') (join (ascii '' '') [ELMA]),
          json_stream = False, timeout = OLLAMA_TIMEOUT Config \<rparr> =
       Inr \<lparr> post_status_code = 200,
             json = Some (JObject (response_object (JString (ascii '' Evet'')))) \<rparr>
   \<and> process_query ascii_lower Config near_elma (post_answers (ascii '' Evet'')) (ascii ''elma'') =
       (ascii ''Evet'',
        [\<lparr> url = OLLAMA_API_URL Config, json_model = LLM_MODEL Config,
            json_prompt = make_prompt (ascii ''elma'') ELMA,
            json_stream = False, timeout = OLLAMA_TIMEOUT Config \<rparr>])"
proof -
  have a: "\<not> not_found_test Config [ELMA] (first_or_empty (distances (near_elma (ascii ''elma''))))"
    by (rule near_elma_answerable)
  have b: "post_answers (ascii '' Evet'')
        \<lparr> url = OLLAMA_API_URL Config, json_model = LLM_MODEL Config,
          json_prompt = make_prompt (ascii ''elma'') (join (ascii '' '') [ELMA]),
          json_stream = False, timeout = OLLAMA_TIMEOUT Config \<rparr> =
       Inr \<lparr> post_status_code = 200,
             json = Some (JObject (response_object (JString (ascii '' Evet'')))) \<rparr>"
    by (simp add: post_answers_def)
  have c: "response_object (JString (ascii '' Evet'')) (ascii ''response'') =
             Some (JString (ascii '' Evet''))"
    by (simp add: response_object_def)
  have d: "strip (ascii '' Evet'') = ascii ''Evet''"
    by (simp add: ascii_def strip_def lstrip_def rstrip_def isspace_def)
  have "process_query ascii_lower Config near_elma (post_answers (ascii '' Evet'')) (ascii ''elma'') =
       (strip (ascii '' Evet''),
        [\<lparr> url = OLLAMA_API_URL Config, json_model = LLM_MODEL Config,
            json_prompt = make_prompt (ascii ''elma'') (join (ascii '' '') [ELMA]),
            json_stream = False, timeout = OLLAMA_TIMEOUT Config \<rparr>])"
    using near_elma_relevant a b c
      answerable_query_is_synthesized [where relevant = "[ELMA]" and lower = ascii_lower
        and cfg = Config and query = "ascii ''elma''" and query_similar = near_elma
        and post = "post_answers (ascii '' Evet'')"
        and request = "\<lparr> url = OLLAMA_API_URL Config, json_model = LLM_MODEL Config,
          json_prompt = make_prompt (ascii ''elma'') (join (ascii '' '') [ELMA]),
          json_stream = False, timeout = OLLAMA_TIMEOUT Config \<rparr>"
        and response = "\<lparr> post_status_code = 200,
             json = Some (JObject (response_object (JString (ascii '' Evet'')))) \<rparr>"
        and result = "response_object (JString (ascii '' Evet''))"
        and answer = "ascii '' Evet''"]
    by simp
  then show ?thesis
    using a b d by simp
qed

lemma generate_answer_empty: "generate_answer cfg post question [] = (NOT_FOUND, [])"
  by (simp add: generate_answer_def)

text \<open>
  Claim C10. When the request succeeds and the JSON object of the answer has no
  \<open>response\<close> field, and also when the list of context sentences is empty,
  \<open>generate_answer\<close> returns \<open>NOT_FOUND\<close>, the string that \<open>process_query\<close> returns for a
  query that is not answerable.
\<close>

theorem not_found_is_ambiguous:
  assumes "context_sentences \<noteq> []"
    and "\<And>request. post request = Inr response"
    and "\<not> (400 \<le> post_status_code response \<and> post_status_code response < 600)"
    and "json response = Some (JObject result)"
    and "result (ascii ''response'') = None"
  shows "fst (generate_answer cfg post question context_sentences) = NOT_FOUND
         \<and> fst (generate_answer cfg post question []) = NOT_FOUND
         \<and> (not_found_test cfg
               (relevant_sentences lower cfg (extract_keywords lower cfg query)
                  (map text_of (first_or_empty (metadatas (query_similar query))))
                  (first_or_empty (distances (query_similar query))))
               (first_or_empty (distances (query_similar query))) \<longrightarrow>
             fst (process_query lower cfg query_similar any_post query) = NOT_FOUND)"
proof -
  have "fst (generate_answer cfg post question context_sentences) = NOT_FOUND"
    using assms
      generate_answer_success [where context_sentences = context_sentences and post = post
        and cfg = cfg and question = question and response = response and result = result]
    by simp
  then show ?thesis
    by (simp add: generate_answer_empty process_query_def Let_def)
qed

theorem not_found_is_ambiguous_witness:
  "post_no_response_field \<lparr> url = [], json_model = [], json_prompt = [], json_stream = False,
       timeout = 0 \<rparr> = Inr \<lparr> post_status_code = 200, json = Some (JObject empty_object) \<rparr>
   \<and> empty_object (ascii ''response'') = None
   \<and> fst (generate_answer Config post_no_response_field (ascii ''elma'') [ELMA]) = NOT_FOUND
   \<and> fst (process_query ascii_lower Config near_elma post_no_response_field (ascii ''elma'')) =
       NOT_FOUND
   \<and> fst (process_query ascii_lower Config far_first post_no_response_field (ascii ''elma'')) =
       NOT_FOUND"
proof -
  have a: "post_no_response_field request =
             Inr \<lparr> post_status_code = 200, json = Some (JObject empty_object) \<rparr>" for request
    by (simp add: post_no_response_field_def)
  have b: "empty_object (ascii ''response'') = None"
    by (simp add: empty_object_def)
  have c: "not_found_test Config
               (relevant_sentences ascii_lower Config
                  (extract_keywords ascii_lower Config (ascii ''elma''))
                  (map text_of (first_or_empty (metadatas (far_first (ascii ''elma'')))))
                  (first_or_empty (distances (far_first (ascii ''elma'')))))
               (first_or_empty (distances (far_first (ascii ''elma''))))"
    by (simp add: not_found_test_iff far_first_def results_of_def first_or_empty_def Config_def)
  note th = not_found_is_ambiguous [of "[ELMA]" post_no_response_field
      "\<lparr> post_status_code = 200, json = Some (JObject empty_object) \<rparr>" empty_object
      Config "ascii ''elma''" ascii_lower "ascii ''elma''" far_first post_no_response_field,
      OF _ a _ _ b]
  have "fst (generate_answer Config post_no_response_field (ascii ''elma'') [ELMA]) = NOT_FOUND
     \<and> fst (process_query ascii_lower Config far_first post_no_response_field (ascii ''elma'')) =
       NOT_FOUND"
    using th c by simp
  then show ?thesis
    using a b by (simp add: process_query_near_elma)
qed

section \<open>Loading the links\<close>

lemma fetch_from_url_None:
  "(fetch_from_url get link = None) =
     ((\<exists>e. get link = Inl e) \<or>
      (\<exists>response. get link = Inr response \<and>
         ((400 \<le> get_status_code response \<and> get_status_code response < 600) \<or>
          strip (join (ascii '' '') (paragraphs response)) = [])))"
  by (cases "get link") (simp_all add: fetch_from_url_def raise_for_status_def Let_def)

lemma load_loop_eq:
  "load_loop get acc links =
     acc @ concat (map (\<lambda>link. case fetch_from_url get link of
                                   None \<Rightarrow> []
                                 | Some content \<Rightarrow> split_into_sentences content) links)"
proof (induction links arbitrary: acc)
  case Nil
  show ?case by simp
next
  case (Cons link links)
  show ?case
  proof (cases "fetch_from_url get link")
    case None
    then show ?thesis by (simp add: Cons)
  next
    case (Some content)
    then show ?thesis
      by (cases "content = []") (simp_all add: Cons split_into_sentences_def)
  qed
qed

text \<open>
  Claim C9, as stated, fails for a status that is not 2xx: \<open>raise_for_status\<close> raises
  for 4xx and 5xx only, so a page answered with status 300 is fetched and its sentences
  are loaded.
\<close>

theorem status_300_is_fetched:
  "get_pages (ascii ''http://c'') = Inr \<lparr> get_status_code = 300, paragraphs = [ascii ''Dort''] \<rparr>
   \<and> fetch_from_url get_pages (ascii ''http://c'') = Some (ascii ''Dort'')
   \<and> load_content_from_links get_pages [ascii ''http://c''] = [ascii ''Dort'']"
  by (simp add: get_pages_def fetch_from_url_def raise_for_status_def load_content_from_links_def
      split_into_sentences_def ascii_def strip_def lstrip_def rstrip_def isspace_def)

text \<open>
  Claim C9, amended. \<open>fetch_from_url\<close> returns no content exactly when the request
  raises, the status is 4xx or 5xx, or the extracted text is blank; a link without
  content is skipped, and the sentences loaded from a batch that holds it are those
  loaded from the batch without it.
\<close>

theorem fetch_failure_is_skipped:
  "(fetch_from_url get link = None) =
     ((\<exists>e. get link = Inl e) \<or>
      (\<exists>response. get link = Inr response \<and>
         ((400 \<le> get_status_code response \<and> get_status_code response < 600) \<or>
          strip (join (ascii '' '') (paragraphs response)) = [])))
   \<and> (fetch_from_url get link = None \<longrightarrow>
        load_content_from_links get (before @ link # after) =
        load_content_from_links get (before @ after))"
proof -
  have "load_content_from_links get (before @ link # after) =
        load_content_from_links get (before @ after)" if "fetch_from_url get link = None"
    using that by (simp add: load_content_from_links_def load_loop_eq)
  then show ?thesis
    using fetch_from_url_None [of get link] by blast
qed

theorem fetch_failure_is_skipped_witness:
  "fetch_from_url get_pages (ascii ''http://b'') = None
   \<and> fetch_from_url get_pages (ascii ''http://d'') = None
   \<and> load_content_from_links get_pages
       [ascii ''http://a'', ascii ''http://b'', ascii ''http://a''] =
       [ascii ''Bir'', ascii ''Iki'', ascii ''Uc'', ascii ''Bir'', ascii ''Iki'', ascii ''Uc'']"
proof -
  have b: "get_pages (ascii ''http://b'') =
             Inr \<lparr> get_status_code = 404, paragraphs = [ascii ''Yok''] \<rparr>"
    by (simp add: get_pages_def ascii_def)
  have d: "get_pages (ascii ''http://d'') = Inl ConnectionError"
    by (simp add: get_pages_def ascii_def)
  have fb: "fetch_from_url get_pages (ascii ''http://b'') = None"
    using b fetch_failure_is_skipped [of get_pages "ascii ''http://b''"] by simp
  have fd: "fetch_from_url get_pages (ascii ''http://d'') = None"
    using d fetch_failure_is_skipped [of get_pages "ascii ''http://d''"] by simp
  have "load_content_from_links get_pages [ascii ''http://a'', ascii ''http://a''] =
       [ascii ''Bir'', ascii ''Iki'', ascii ''Uc'', ascii ''Bir'', ascii ''Iki'', ascii ''Uc'']"
    by (simp add: get_pages_def fetch_from_url_def raise_for_status_def
        load_content_from_links_def split_into_sentences_def ascii_def strip_def lstrip_def
        rstrip_def isspace_def)
  then show ?thesis
    using fb fd
      fetch_failure_is_skipped [of get_pages "ascii ''http://b''" "[ascii ''http://a'']"
        "[ascii ''http://a'']"]
    by simp
qed

end
